theory Spec2Isabelle
  imports Complex_Main "HOL-Library.Multiset" "HOL-Library.Sublist"
begin

section \<open>The FoodTime storefront: catalog view and cart state (src/app/page.tsx)\<close>

text \<open>
  The component \<open>FoodTimeApp\<close> keeps its state in React hooks and changes it only through
  updater functions (\<open>setCart (prevCart => ...)\<close>), so every handler is modelled as a
  function from the previous state to the next one, and every derived value
  (\<open>filteredItems\<close>, \<open>sortedItems\<close>, the totals) as a function of the state it reads.
  The arrays of the catalog view are objects that \<open>filter\<close>, the spread and \<open>sort\<close> read,
  allocate and overwrite; for them a store of arrays is modelled as well, and the
  functions on lists are proved to give the contents of the arrays the store holds.

  A JavaScript \<open>number\<close> is modelled as an exact rational: the rounding of IEEE doubles,
  \<open>NaN\<close> and the infinities are outside the model, and no statement is made here of a
  property that turns on rounding. A JavaScript string is a list of characters.
\<close>

type_synonym number = rat

subsection \<open>Data model\<close>

text \<open>
  \<open>interface MenuItem\<close> and \<open>interface CartItem extends MenuItem\<close>. The fields \<open>id\<close> and
  \<open>image\<close> carry a prime because HOL already has constants of these names. The optional
  field \<open>popular?: boolean\<close> is absent (\<open>None\<close>) or holds a boolean.
\<close>

record MenuItem =
  id' :: number
  name :: string
  category :: string
  price :: number
  description :: string
  image' :: string
  rating :: number
  popular :: "bool option"
  prepTime :: string

record CartItem = MenuItem +
  quantity :: number

text \<open>The object spread \<open>{ ...item, quantity: q }\<close> of line 82.\<close>

definition spreadWithQuantity :: "MenuItem \<Rightarrow> number \<Rightarrow> CartItem" where
  "spreadWithQuantity item q =
     \<lparr> id' = id' item, name = name item, category = category item, price = price item,
       description = description item, image' = image' item, rating = rating item,
       popular = popular item, prepTime = prepTime item, quantity = q \<rparr>"

text \<open>Truthiness of the optional flag, as in \<open>b.popular ? 1 : 0\<close>: absent counts as false.\<close>

definition truthy :: "bool option \<Rightarrow> bool" where
  "truthy p = (case p of None \<Rightarrow> False | Some b \<Rightarrow> b)"

subsection \<open>Strings\<close>

text \<open>
  \<open>String.prototype.toLowerCase\<close> is the engine's conversion by the Unicode case mappings;
  it is not a map over single characters and it is not part of the sources, so it is a
  parameter \<open>toLowerCase\<close> of every function that calls it. \<open>s.includes(t)\<close>, written
  \<open>includes' s t\<close> since \<open>includes\<close> is a keyword of Isabelle, holds when \<open>t\<close> occurs in
  \<open>s\<close> as a contiguous run of characters, tried at every start position from the left.
\<close>

fun includes' :: "string \<Rightarrow> string \<Rightarrow> bool" where
  "includes' [] t = (t = [])"
| "includes' (c # s) t = (prefix t (c # s) \<or> includes' s t)"

subsection \<open>Catalog filter (lines 51 to 57)\<close>

definition matchesCategory :: "string \<Rightarrow> MenuItem \<Rightarrow> bool" where
  "matchesCategory selectedCategory item =
     (selectedCategory = ''all'' \<or> category item = selectedCategory)"

definition matchesSearch :: "(string \<Rightarrow> string) \<Rightarrow> string \<Rightarrow> MenuItem \<Rightarrow> bool" where
  "matchesSearch toLowerCase searchTerm item =
     (includes' (toLowerCase (name item)) (toLowerCase searchTerm) \<or>
      includes' (toLowerCase (description item)) (toLowerCase searchTerm))"

text \<open>The contents of the array that \<open>items.filter(...)\<close> returns.\<close>

definition filteredItems ::
  "(string \<Rightarrow> string) \<Rightarrow> MenuItem list \<Rightarrow> string \<Rightarrow> string \<Rightarrow> MenuItem list" where
  "filteredItems toLowerCase items selectedCategory searchTerm =
     filter (\<lambda>item. matchesCategory selectedCategory item \<and>
                    matchesSearch toLowerCase searchTerm item) items"

subsection \<open>Sort (lines 59 to 72)\<close>

text \<open>
  \<open>Array.prototype.sort\<close> with a comparator is the engine's: ECMAScript requires it to be
  stable and, for a consistent comparator, to order \<open>a\<close> before \<open>b\<close> whenever
  \<open>cmp a b < 0\<close>. It is modelled by the stable insertion sort: an element is placed in
  front of the first element of the sorted rest that it does not compare greater than.
  On lists it takes the contents of the array and returns the contents sorted; on the
  store, further down, it overwrites the array it is called on.
\<close>

fun sortInsert :: "('a \<Rightarrow> 'a \<Rightarrow> number) \<Rightarrow> 'a \<Rightarrow> 'a list \<Rightarrow> 'a list" where
  "sortInsert cmp x [] = [x]"
| "sortInsert cmp x (y # ys) =
     (if cmp x y \<le> 0 then x # y # ys else y # sortInsert cmp x ys)"

fun arraySort :: "('a \<Rightarrow> 'a \<Rightarrow> number) \<Rightarrow> 'a list \<Rightarrow> 'a list" where
  "arraySort cmp [] = []"
| "arraySort cmp (x # xs) = sortInsert cmp x (arraySort cmp xs)"

text \<open>
  The comparator of the \<open>switch (sortBy)\<close>. \<open>String.prototype.localeCompare\<close> depends on
  the host's locale, so it is a parameter.
\<close>

definition compareItems ::
  "(string \<Rightarrow> string \<Rightarrow> number) \<Rightarrow> string \<Rightarrow> MenuItem \<Rightarrow> MenuItem \<Rightarrow> number" where
  "compareItems localeCompare sortBy a b =
     (if sortBy = ''price-low'' then price a - price b
      else if sortBy = ''price-high'' then price b - price a
      else if sortBy = ''rating'' then rating b - rating a
      else if sortBy = ''popular'' then
        (if truthy (popular b) then 1 else 0) - (if truthy (popular a) then 1 else 0)
      else localeCompare (name a) (name b))"

text \<open>The contents of the array that \<open>[...filteredItems].sort(...)\<close> returns.\<close>

definition sortedItems ::
  "(string \<Rightarrow> string \<Rightarrow> number) \<Rightarrow> string \<Rightarrow> MenuItem list \<Rightarrow> MenuItem list" where
  "sortedItems localeCompare sortBy filtered =
     arraySort (compareItems localeCompare sortBy) filtered"

subsection \<open>Arrays as objects: what the view reads, allocates and overwrites\<close>

text \<open>
  A JavaScript array is an object: a variable holds a reference to it, and a method may
  overwrite the array it is called on. The store gives the contents of every array by
  its reference; references below \<open>nextRef\<close> are allocated, and a new array takes the
  reference \<open>nextRef\<close>.
  \<^item> \<open>arr.filter(p)\<close> reads \<open>arr\<close> and returns a new array.
  \<^item> \<open>[...arr]\<close> reads \<open>arr\<close> and returns a new array with the same elements.
  \<^item> \<open>arr.sort(cmp)\<close> sorts \<open>arr\<close> in place, overwriting it, and returns \<open>arr\<close> itself.
\<close>

record 'a store =
  cells :: "nat \<Rightarrow> 'a list"
  nextRef :: nat

definition allocArray :: "'a list \<Rightarrow> 'a store \<Rightarrow> nat \<times> 'a store" where
  "allocArray xs st =
     (nextRef st, st\<lparr>cells := (cells st)(nextRef st := xs), nextRef := Suc (nextRef st)\<rparr>)"


definition arraySpread :: "nat \<Rightarrow> 'a store \<Rightarrow> nat \<times> 'a store" where
  "arraySpread arr st = allocArray (cells st arr) st"

definition arraySortInPlace ::
  "('a \<Rightarrow> 'a \<Rightarrow> number) \<Rightarrow> nat \<Rightarrow> 'a store \<Rightarrow> nat \<times> 'a store" where
  "arraySortInPlace cmp arr st =
     (arr, st\<lparr>cells := (cells st)(arr := arraySort cmp (cells st arr))\<rparr>)"


definition sortedItemsInStore ::
  "(string \<Rightarrow> string \<Rightarrow> number) \<Rightarrow> string \<Rightarrow> nat \<Rightarrow> MenuItem store \<Rightarrow> nat \<times> MenuItem store" where
  "sortedItemsInStore localeCompare sortBy filtered st =
     (case arraySpread filtered st of
        (copy, st1) \<Rightarrow> arraySortInPlace (compareItems localeCompare sortBy) copy st1)"

subsection \<open>Cart (lines 74 to 108)\<close>

definition addToCart :: "MenuItem \<Rightarrow> CartItem list \<Rightarrow> CartItem list" where
  "addToCart item prevCart =
     (case find (\<lambda>cartItem. id' cartItem = id' item) prevCart of
        Some existingItem \<Rightarrow>
          map (\<lambda>cartItem. if id' cartItem = id' item
                          then cartItem\<lparr>quantity := quantity cartItem + 1\<rparr> else cartItem)
              prevCart
      | None \<Rightarrow> prevCart @ [spreadWithQuantity item 1])"

definition removeFromCart :: "number \<Rightarrow> CartItem list \<Rightarrow> CartItem list" where
  "removeFromCart itemId prevCart = filter (\<lambda>item. id' item \<noteq> itemId) prevCart"

definition updateQuantity :: "number \<Rightarrow> number \<Rightarrow> CartItem list \<Rightarrow> CartItem list" where
  "updateQuantity itemId newQuantity prevCart =
     (if newQuantity = 0 then removeFromCart itemId prevCart
      else map (\<lambda>item. if id' item = itemId then item\<lparr>quantity := newQuantity\<rparr> else item)
             prevCart)"

definition getTotalPrice :: "CartItem list \<Rightarrow> number" where
  "getTotalPrice cart = foldl (\<lambda>total item. total + price item * quantity item) 0 cart"

definition getTotalItems :: "CartItem list \<Rightarrow> number" where
  "getTotalItems cart = foldl (\<lambda>total item. total + quantity item) 0 cart"

subsection \<open>Favorites (lines 98 to 100)\<close>

definition toggleFavorite :: "number \<Rightarrow> number list \<Rightarrow> number list" where
  "toggleFavorite itemId prev =
     (if itemId \<in> set prev then filter (\<lambda>i. i \<noteq> itemId) prev else prev @ [itemId])"

subsection \<open>Sample data\<close>

text \<open>
  The catalog is loaded from \<open>../data/menu.json\<close> when the page mounts, and the theorems
  hold for every catalog. Three items of the shape of \<open>MenuItem\<close> serve the concrete
  checks.
\<close>

definition sampleItem :: MenuItem where
  "sampleItem = \<lparr> id' = 1, name = ''Margherita Pizza'', category = ''pizza'', price = 8.99,
     description = ''Classic tomato and mozzarella'', image' = ''/pizza.jpg'', rating = 4.5,
     popular = Some True, prepTime = ''15 min'' \<rparr>"

definition sampleBurger :: MenuItem where
  "sampleBurger = \<lparr> id' = 2, name = ''Cheese Burger'', category = ''burgers'', price = 12,
     description = ''Beef patty with cheddar; goes well with PIZZA fries'', image' = ''/burger.jpg'',
     rating = 4.2, popular = None, prepTime = ''10 min'' \<rparr>"

definition sampleSalad :: MenuItem where
  "sampleSalad = \<lparr> id' = 3, name = ''Caesar Salad'', category = ''salads'', price = 5,
     description = ''Romaine and croutons'', image' = ''/salad.jpg'',
     rating = 4.8, popular = Some False, prepTime = ''5 min'' \<rparr>"

text \<open>
  A sample \<open>toLowerCase\<close> for text in ASCII, where the engine's conversion moves \<open>A\<close> to \<open>Z\<close>
  (codes 65 to 90) to \<open>a\<close> to \<open>z\<close> and leaves every other character. It stands for the
  engine's function in the concrete checks only.
\<close>

definition asciiToLowerCaseChar :: "char \<Rightarrow> char" where
  "asciiToLowerCaseChar c =
     (if 65 \<le> (of_char c :: nat) \<and> (of_char c :: nat) \<le> 90
      then char_of ((of_char c :: nat) + 32) else c)"

definition asciiToLowerCase :: "string \<Rightarrow> string" where
  "asciiToLowerCase s = map asciiToLowerCaseChar s"

text \<open>A store whose only array, at reference 0, holds the three items.\<close>

definition sampleStore :: "MenuItem store" where
  "sampleStore =
     \<lparr> cells = (\<lambda>r. if r = 0 then [sampleItem, sampleBurger, sampleSalad] else []),
       nextRef = 1 \<rparr>"

text \<open>
  A sample \<open>localeCompare\<close>: the comparison of two strings character by character by their
  codes, the shorter string first when one is a prefix of the other. It stands for a
  locale in the concrete checks only.
\<close>

fun codeUnitCompare :: "string \<Rightarrow> string \<Rightarrow> number" where
  "codeUnitCompare [] [] = 0"
| "codeUnitCompare [] (b # t) = - 1"
| "codeUnitCompare (a # s) [] = 1"
| "codeUnitCompare (a # s) (b # t) =
     (if (of_char a :: nat) < of_char b then - 1
      else if (of_char b :: nat) < of_char a then 1
      else codeUnitCompare s t)"

subsection \<open>The filter contract in the words of the specification\<close>



section \<open>Properties of the cart and the favorites\<close>

subsection \<open>Totals\<close>

text \<open>
  The two \<open>reduce\<close> calls are left folds from 0. In the exact arithmetic of this model a
  fold of additions is the start value plus the sum; the lemma serves the totals of the
  one-line carts below.
\<close>

lemma foldl_add_sum_list:
  "foldl (\<lambda>total item. total + f item) a xs = (a::number) + sum_list (map f xs)"
  by (induction xs arbitrary: a) (simp_all add: add.assoc)

subsection \<open>Favorites\<close>

text \<open>
  Claim C8. \<open>toggleFavorite\<close> adds an absent id and removes a present one, and two
  toggles of the same id give back the same set of favorite ids (the order in the array
  may differ).
\<close>

theorem toggleFavorite_twice:
  "set (toggleFavorite i favs) = (if i \<in> set favs then set favs - {i} else insert i (set favs))
   \<and> set (toggleFavorite i (toggleFavorite i favs)) = set favs"
  by (auto simp: toggleFavorite_def)

subsection \<open>The ids of the cart lines\<close>

lemma map_id_setQuantity:
  "map id' (map (\<lambda>c. if P c then c\<lparr>quantity := f c\<rparr> else c) cart) = map id' cart"
  by (induction cart) simp_all

lemma find_id_None: "find (\<lambda>c. id' c = i) cart = None \<longleftrightarrow> i \<notin> id' ` set cart"
  by (induction cart) auto

lemma addToCart_absent:
  "id' item \<notin> id' ` set cart \<Longrightarrow> addToCart item cart = cart @ [spreadWithQuantity item 1]"
  using find_id_None [of "id' item" cart] by (simp add: addToCart_def)

lemma addToCart_present:
  "id' item \<in> id' ` set cart \<Longrightarrow>
   addToCart item cart =
     map (\<lambda>c. if id' c = id' item then c\<lparr>quantity := quantity c + 1\<rparr> else c) cart"
proof -
  assume "id' item \<in> id' ` set cart"
  then have "find (\<lambda>c. id' c = id' item) cart \<noteq> None"
    by (simp add: find_id_None)
  then obtain e where "find (\<lambda>c. id' c = id' item) cart = Some e"
    by blast
  then show ?thesis
    by (simp add: addToCart_def)
qed

lemma ids_addToCart:
  "map id' (addToCart item cart) =
     (if id' item \<in> id' ` set cart then map id' cart else map id' cart @ [id' item])"
  by (simp add: addToCart_absent addToCart_present map_id_setQuantity spreadWithQuantity_def)

lemma ids_removeFromCart:
  "map id' (removeFromCart i cart) = filter (\<lambda>j. j \<noteq> i) (map id' cart)"
  by (simp add: removeFromCart_def filter_map comp_def)

lemma ids_updateQuantity:
  "map id' (updateQuantity i n cart) =
     (if n = 0 then filter (\<lambda>j. j \<noteq> i) (map id' cart) else map id' cart)"
  by (simp add: updateQuantity_def ids_removeFromCart map_id_setQuantity)

text \<open>
  Claim C9. From a cart whose lines have pairwise distinct ids, \<open>addToCart\<close>,
  \<open>removeFromCart\<close> and \<open>updateQuantity\<close> each give a cart whose lines have pairwise
  distinct ids.
\<close>

theorem cart_ops_keep_ids_distinct:
  assumes "distinct (map id' cart)"
  shows "distinct (map id' (addToCart item cart))
     \<and> distinct (map id' (removeFromCart i cart))
     \<and> distinct (map id' (updateQuantity i n cart))"
  using assms by (simp add: ids_addToCart ids_removeFromCart ids_updateQuantity)

theorem cart_ops_keep_ids_distinct_witness:
  "distinct (map id' [spreadWithQuantity sampleItem 2])
   \<and> distinct (map id' (addToCart sampleBurger [spreadWithQuantity sampleItem 2]))
   \<and> distinct (map id' (removeFromCart 1 [spreadWithQuantity sampleItem 2]))
   \<and> distinct (map id' (updateQuantity 1 5 [spreadWithQuantity sampleItem 2]))"
  using cart_ops_keep_ids_distinct [of "[spreadWithQuantity sampleItem 2]" sampleBurger 1 5]
  by (simp add: spreadWithQuantity_def)

subsection \<open>Setting a quantity\<close>

lemma updateQuantity_nonzero:
  "n \<noteq> 0 \<Longrightarrow>
   updateQuantity i n cart = map (\<lambda>c. if id' c = i then c\<lparr>quantity := n\<rparr> else c) cart"
  by (simp add: updateQuantity_def)

lemma map_setQuantity_absent:
  "i \<notin> id' ` set cart \<Longrightarrow> map (\<lambda>c. if id' c = i then f c else c) cart = cart"
  by (induction cart) auto

text \<open>
  Claim C1 says that \<open>updateQuantity itemId n\<close> with \<open>n > 0\<close> leaves a line for \<open>itemId\<close>
  with quantity \<open>n\<close>, creating the line when the cart has none. The handler receives an
  id only and maps over the lines that exist: on the empty cart nothing is created.
\<close>

theorem updateQuantity_empty_creates_nothing:
  "updateQuantity 1 3 [] = []"
  by (simp add: updateQuantity_def)

text \<open>
  Claim C1, as the code has it. For \<open>n > 0\<close>, \<open>updateQuantity itemId n\<close> keeps the number
  and the order of the lines, sets the quantity to \<open>n\<close> on every line whose id is
  \<open>itemId\<close> and leaves every other line as it is; a cart with no line for \<open>itemId\<close> is
  unchanged.
\<close>

theorem updateQuantity_positive:
  assumes "0 < n"
  shows "length (updateQuantity i n cart) = length cart
     \<and> (\<forall>k < length cart.
            updateQuantity i n cart ! k =
              (if id' (cart ! k) = i then (cart ! k)\<lparr>quantity := n\<rparr> else cart ! k))
     \<and> (i \<notin> id' ` set cart \<longrightarrow> updateQuantity i n cart = cart)"
  using assms by (simp add: updateQuantity_nonzero map_setQuantity_absent)

theorem updateQuantity_positive_witness:
  "(0::number) < 3
   \<and> updateQuantity 1 3 [spreadWithQuantity sampleItem 2] = [spreadWithQuantity sampleItem 3]
   \<and> updateQuantity 7 3 [spreadWithQuantity sampleItem 2] = [spreadWithQuantity sampleItem 2]"
  using updateQuantity_positive [of 3 1 "[spreadWithQuantity sampleItem 2]"]
        updateQuantity_positive [of 3 7 "[spreadWithQuantity sampleItem 2]"]
  by (simp add: updateQuantity_def spreadWithQuantity_def sampleItem_def)

text \<open>
  Claim C2 says that a negative quantity is rejected and the cart left unchanged. The
  handler has no error path: on a cart holding the line, the negative quantity is stored.
\<close>

theorem updateQuantity_negative_is_stored:
  "updateQuantity 1 (- 3) [spreadWithQuantity sampleItem 2] = [spreadWithQuantity sampleItem (- 3)]
   \<and> updateQuantity 1 (- 3) [spreadWithQuantity sampleItem 2] \<noteq> [spreadWithQuantity sampleItem 2]"
  by (simp add: updateQuantity_def spreadWithQuantity_def sampleItem_def)

text \<open>
  Claim C2, as the code has it. For \<open>n < 0\<close>, \<open>updateQuantity itemId n\<close> returns a cart
  (there is no error result): the quantity of every line whose id is \<open>itemId\<close> becomes
  \<open>n\<close>, every other line stays, and a cart with no line for \<open>itemId\<close> is unchanged.
\<close>

theorem updateQuantity_negative:
  assumes "n < 0"
  shows "length (updateQuantity i n cart) = length cart
     \<and> (\<forall>k < length cart.
            updateQuantity i n cart ! k =
              (if id' (cart ! k) = i then (cart ! k)\<lparr>quantity := n\<rparr> else cart ! k))
     \<and> (i \<notin> id' ` set cart \<longrightarrow> updateQuantity i n cart = cart)"
  using assms by (simp add: updateQuantity_nonzero map_setQuantity_absent)

theorem updateQuantity_negative_witness:
  "(- 3 :: number) < 0
   \<and> updateQuantity 1 (- 3) [spreadWithQuantity sampleItem 2] = [spreadWithQuantity sampleItem (- 3)]
   \<and> updateQuantity 7 (- 3) [spreadWithQuantity sampleItem 2] = [spreadWithQuantity sampleItem 2]"
  using updateQuantity_negative [of "- 3" 1 "[spreadWithQuantity sampleItem 2]"]
        updateQuantity_negative [of "- 3" 7 "[spreadWithQuantity sampleItem 2]"]
  by (simp add: updateQuantity_def spreadWithQuantity_def sampleItem_def)

subsection \<open>Adding an item\<close>

lemma addToCart_twice_absent:
  assumes "id' item \<notin> id' ` set cart"
  shows "addToCart item (addToCart item cart) = cart @ [spreadWithQuantity item 2]"
proof -
  have first: "addToCart item cart = cart @ [spreadWithQuantity item 1]"
    using assms by (rule addToCart_absent)
  have "id' item \<in> id' ` set (cart @ [spreadWithQuantity item 1])"
    by (simp add: spreadWithQuantity_def)
  then have "addToCart item (cart @ [spreadWithQuantity item 1]) =
      map (\<lambda>c. if id' c = id' item then c\<lparr>quantity := quantity c + 1\<rparr> else c)
        (cart @ [spreadWithQuantity item 1])"
    by (rule addToCart_present)
  also have "\<dots> = cart @ [spreadWithQuantity item 2]"
    using assms by (simp add: map_setQuantity_absent spreadWithQuantity_def)
  finally show ?thesis
    by (simp add: first)
qed

text \<open>
  Claim C4. \<open>addToCart\<close> is a total function of the item and the cart. When a line with
  the item's id exists, the cart keeps its lines and their order, the quantity of the
  line with that id grows by 1 and nothing else changes; otherwise a line for the item
  with quantity 1 is appended. Adding the same item twice to a cart without it appends
  one line with quantity 2, which adds twice the price to the total price and 2 to the
  item count; from the empty cart, at price 8.99, the totals are 17.98 and 2.
\<close>

theorem addToCart_spec:
  "(id' item \<in> id' ` set cart \<longrightarrow>
      length (addToCart item cart) = length cart \<and>
      (\<forall>k < length cart.
         addToCart item cart ! k =
           (if id' (cart ! k) = id' item
            then (cart ! k)\<lparr>quantity := quantity (cart ! k) + 1\<rparr> else cart ! k)))
   \<and> (id' item \<notin> id' ` set cart \<longrightarrow>
      addToCart item cart = cart @ [spreadWithQuantity item 1] \<and>
      addToCart item (addToCart item cart) = cart @ [spreadWithQuantity item 2] \<and>
      getTotalPrice (addToCart item (addToCart item cart)) = getTotalPrice cart + price item * 2 \<and>
      getTotalItems (addToCart item (addToCart item cart)) = getTotalItems cart + 2)
   \<and> addToCart item (addToCart item []) = [spreadWithQuantity item 2]
   \<and> getTotalPrice (addToCart (item\<lparr>price := 8.99\<rparr>) (addToCart (item\<lparr>price := 8.99\<rparr>) [])) = 17.98
   \<and> getTotalItems (addToCart item (addToCart item [])) = 2"
proof -
  have twice_empty: "addToCart it (addToCart it []) = [spreadWithQuantity it 2]" for it
    using addToCart_twice_absent [of it "[]"] by simp
  have present: "id' item \<in> id' ` set cart \<longrightarrow>
      length (addToCart item cart) = length cart \<and>
      (\<forall>k < length cart.
         addToCart item cart ! k =
           (if id' (cart ! k) = id' item
            then (cart ! k)\<lparr>quantity := quantity (cart ! k) + 1\<rparr> else cart ! k))"
    by (simp add: addToCart_present)
  have price_twice: "getTotalPrice (cart @ [spreadWithQuantity item 2]) =
      getTotalPrice cart + price item * 2"
    by (simp add: getTotalPrice_def foldl_add_sum_list spreadWithQuantity_def)
  have items_twice: "getTotalItems (cart @ [spreadWithQuantity item 2]) = getTotalItems cart + 2"
    by (simp add: getTotalItems_def foldl_add_sum_list spreadWithQuantity_def)
  have absent: "id' item \<notin> id' ` set cart \<longrightarrow>
      addToCart item cart = cart @ [spreadWithQuantity item 1] \<and>
      addToCart item (addToCart item cart) = cart @ [spreadWithQuantity item 2] \<and>
      getTotalPrice (addToCart item (addToCart item cart)) = getTotalPrice cart + price item * 2 \<and>
      getTotalItems (addToCart item (addToCart item cart)) = getTotalItems cart + 2"
  proof
    assume fresh: "id' item \<notin> id' ` set cart"
    have twice: "addToCart item (addToCart item cart) = cart @ [spreadWithQuantity item 2]"
      using fresh by (rule addToCart_twice_absent)
    show "addToCart item cart = cart @ [spreadWithQuantity item 1] \<and>
      addToCart item (addToCart item cart) = cart @ [spreadWithQuantity item 2] \<and>
      getTotalPrice (addToCart item (addToCart item cart)) = getTotalPrice cart + price item * 2 \<and>
      getTotalItems (addToCart item (addToCart item cart)) = getTotalItems cart + 2"
      by (intro conjI addToCart_absent [OF fresh] twice)
         (simp_all only: twice price_twice items_twice)
  qed
  have scenario_price:
    "getTotalPrice (addToCart (item\<lparr>price := 8.99\<rparr>) (addToCart (item\<lparr>price := 8.99\<rparr>) [])) = 17.98"
    by (simp only: twice_empty) (simp add: getTotalPrice_def spreadWithQuantity_def)
  have scenario_items: "getTotalItems (addToCart item (addToCart item [])) = 2"
    by (simp only: twice_empty) (simp add: getTotalItems_def spreadWithQuantity_def)
  show ?thesis
    by (intro conjI present absent twice_empty scenario_price scenario_items)
qed

theorem addToCart_spec_witness:
  "addToCart sampleItem [spreadWithQuantity sampleItem 1] = [spreadWithQuantity sampleItem 2]
   \<and> addToCart sampleItem [] = [spreadWithQuantity sampleItem 1]
   \<and> getTotalPrice (addToCart sampleItem (addToCart sampleItem [])) = 17.98
   \<and> getTotalItems (addToCart sampleItem (addToCart sampleItem [])) = 2"
  using addToCart_spec [of sampleItem "[spreadWithQuantity sampleItem 1]"]
        addToCart_spec [of sampleItem "[]"]
  by (simp add: addToCart_def getTotalPrice_def getTotalItems_def spreadWithQuantity_def sampleItem_def)

section \<open>Properties of the catalog view\<close>

subsection \<open>Filter\<close>









text \<open>
  The scenario of the search text \<open>pizza\<close> under the category \<open>all\<close>: the items whose name
  or description holds the word in any case, in the order of the list.
\<close>

lemma filteredItems_pizza_scenario:
  "map name (filteredItems asciiToLowerCase [sampleItem, sampleBurger, sampleSalad] ''all'' ''pizza'') =
     [''Margherita Pizza'', ''Cheese Burger'']"
  by code_simp

subsection \<open>Sort\<close>

lemma mset_sortInsert: "mset (sortInsert cmp x ys) = add_mset x (mset ys)"
  by (induction ys) simp_all

lemma mset_arraySort: "mset (arraySort cmp xs) = mset xs"
  by (induction xs) (simp_all add: mset_sortInsert)

lemma set_sortInsert: "set (sortInsert cmp x ys) = insert x (set ys)"
  using mset_sortInsert [of cmp x ys, THEN arg_cong, of set_mset] by simp

lemma sortedItemsInStore_result:
  "sortedItemsInStore localeCompare sortBy filtered st =
     (nextRef st,
      st\<lparr>cells := (cells st)(nextRef st := sortedItems localeCompare sortBy (cells st filtered)),
         nextRef := Suc (nextRef st)\<rparr>)"
  by (simp add: sortedItemsInStore_def arraySpread_def allocArray_def arraySortInPlace_def
      sortedItems_def)

text \<open>
  Claim C5. On a store where \<open>filteredItems\<close> is an allocated array, for every sort key,
  \<open>[...filteredItems].sort(...)\<close> returns an array that is a permutation of
  \<open>filteredItems\<close> (the same items, hence the same multiset of ids, and as many), and
  \<open>filteredItems\<close> is not mutated: the array returned is another array, and
  \<open>filteredItems\<close>, like every array allocated before the call, holds after the call what
  it held before, in the same order. The contents of the array returned are
  \<open>sortedItems\<close> of the contents of \<open>filteredItems\<close>, itself a permutation of its argument.
\<close>

theorem sortedItems_permutation:
  assumes "filtered < nextRef st"
  shows "(case sortedItemsInStore localeCompare sortBy filtered st of
           (result, st') \<Rightarrow>
             mset (cells st' result) = mset (cells st filtered)
             \<and> mset (map id' (cells st' result)) = mset (map id' (cells st filtered))
             \<and> length (cells st' result) = length (cells st filtered)
             \<and> cells st' result = sortedItems localeCompare sortBy (cells st filtered)
             \<and> result \<noteq> filtered
             \<and> cells st' filtered = cells st filtered
             \<and> (\<forall>r < nextRef st. cells st' r = cells st r))
     \<and> mset (sortedItems localeCompare sortBy xs) = mset xs
     \<and> mset (map id' (sortedItems localeCompare sortBy xs)) = mset (map id' xs)
     \<and> length (sortedItems localeCompare sortBy xs) = length xs"
proof -
  have m: "mset (sortedItems lc key ys) = mset ys" for lc key and ys :: "MenuItem list"
    by (simp add: sortedItems_def mset_arraySort)
  have ids: "mset (map id' (sortedItems lc key ys)) = mset (map id' ys)"
    for lc key and ys :: "MenuItem list"
    by (simp only: mset_map m)
  have len: "length (sortedItems lc key ys) = length ys" for lc key and ys :: "MenuItem list"
    using m [of lc key ys] by (rule mset_eq_length)
  have fresh: "nextRef st \<noteq> filtered"
    using assms by simp
  have store: "case sortedItemsInStore localeCompare sortBy filtered st of
           (result, st') \<Rightarrow>
             mset (cells st' result) = mset (cells st filtered)
             \<and> mset (map id' (cells st' result)) = mset (map id' (cells st filtered))
             \<and> length (cells st' result) = length (cells st filtered)
             \<and> cells st' result = sortedItems localeCompare sortBy (cells st filtered)
             \<and> result \<noteq> filtered
             \<and> cells st' filtered = cells st filtered
             \<and> (\<forall>r < nextRef st. cells st' r = cells st r)"
    using fresh by (simp add: sortedItemsInStore_result m ids len)
  show ?thesis
    by (intro conjI store m ids len)
qed

theorem sortedItems_permutation_witness:
  "(0::nat) < nextRef sampleStore
   \<and> (case sortedItemsInStore codeUnitCompare ''price-low'' 0 sampleStore of
        (result, st') \<Rightarrow>
          cells st' result = [sampleSalad, sampleItem, sampleBurger]
          \<and> result \<noteq> 0
          \<and> cells st' 0 = [sampleItem, sampleBurger, sampleSalad])"
proof -
  have allocated: "(0::nat) < nextRef sampleStore"
    by (simp add: sampleStore_def)
  have held: "cells sampleStore 0 = [sampleItem, sampleBurger, sampleSalad]"
    by (simp add: sampleStore_def)
  have run: "sortedItems codeUnitCompare ''price-low'' [sampleItem, sampleBurger, sampleSalad] =
      [sampleSalad, sampleItem, sampleBurger]"
    by (simp add: sortedItems_def compareItems_def sampleItem_def sampleBurger_def sampleSalad_def)
  have "case sortedItemsInStore codeUnitCompare ''price-low'' 0 sampleStore of
        (result, st') \<Rightarrow>
          cells st' result = [sampleSalad, sampleItem, sampleBurger]
          \<and> result \<noteq> 0
          \<and> cells st' 0 = [sampleItem, sampleBurger, sampleSalad]"
  proof -
    obtain result st' where
      res: "sortedItemsInStore codeUnitCompare ''price-low'' 0 sampleStore = (result, st')"
      by (cases "sortedItemsInStore codeUnitCompare ''price-low'' 0 sampleStore")
    have "cells st' result = sortedItems codeUnitCompare ''price-low'' (cells sampleStore 0)
        \<and> result \<noteq> 0 \<and> cells st' 0 = cells sampleStore 0"
      using sortedItems_permutation [OF allocated, of codeUnitCompare "''price-low''",
          THEN conjunct1]
      unfolding res prod.case by blast
    then show ?thesis
      by (simp add: res held run)
  qed
  with allocated show ?thesis
    by (rule conjI)
qed

text \<open>
  A comparator that is total and transitive in the sense of \<open>cmp a b \<le> 0\<close> leaves the
  list ordered by it.
\<close>

lemma sorted_sortInsert:
  assumes total: "\<And>a b. cmp a b \<le> 0 \<or> cmp b a \<le> 0"
    and trans: "\<And>a b c. cmp a b \<le> 0 \<Longrightarrow> cmp b c \<le> 0 \<Longrightarrow> cmp a c \<le> 0"
    and sorted: "sorted_wrt (\<lambda>a b. cmp a b \<le> 0) ys"
  shows "sorted_wrt (\<lambda>a b. cmp a b \<le> 0) (sortInsert cmp x ys)"
  using sorted
proof (induction ys)
  case Nil
  show ?case by simp
next
  case (Cons y ys)
  from Cons.prems have above: "\<forall>z\<in>set ys. cmp y z \<le> 0"
    and rest: "sorted_wrt (\<lambda>a b. cmp a b \<le> 0) ys"
    by simp_all
  show ?case
  proof (cases "cmp x y \<le> 0")
    case True
    have "\<forall>z\<in>set ys. cmp x z \<le> 0"
    proof
      fix z
      assume "z \<in> set ys"
      with above have "cmp y z \<le> 0"
        by blast
      with True show "cmp x z \<le> 0"
        by (rule trans)
    qed
    with True above rest show ?thesis
      by simp
  next
    case False
    with total [of x y] have "cmp y x \<le> 0"
      by simp
    with False above Cons.IH [OF rest] show ?thesis
      by (simp add: set_sortInsert)
  qed
qed

lemma sorted_arraySort:
  assumes "\<And>a b. cmp a b \<le> 0 \<or> cmp b a \<le> 0"
    and "\<And>a b c. cmp a b \<le> 0 \<Longrightarrow> cmp b c \<le> 0 \<Longrightarrow> cmp a c \<le> 0"
  shows "sorted_wrt (\<lambda>a b. cmp a b \<le> 0) (arraySort cmp xs)"
  by (induction xs) (simp_all add: sorted_sortInsert assms)

text \<open>
  Under the key \<open>popular\<close> a flagged item compares less than or equal to every item, and an
  unflagged one greater than every flagged one.
\<close>

lemma sortInsert_first:
  "(\<And>y. cmp x y \<le> 0) \<Longrightarrow> sortInsert cmp x ys = x # ys"
  by (cases ys) simp_all

lemma sortInsert_after:
  assumes "\<forall>y\<in>set as. 0 < cmp x y" and "\<forall>y\<in>set bs. cmp x y \<le> 0"
  shows "sortInsert cmp x (as @ bs) = as @ x # bs"
  using assms
proof (induction as)
  case Nil
  then show ?case by (cases bs) simp_all
next
  case (Cons a as)
  then have "\<not> cmp x a \<le> 0"
    by simp
  with Cons show ?case
    by simp
qed

lemma arraySort_popular:
  "arraySort (compareItems lc ''popular'') xs =
     filter (\<lambda>i. truthy (popular i)) xs @ filter (\<lambda>i. \<not> truthy (popular i)) xs"
proof (induction xs)
  case Nil
  show ?case by simp
next
  case (Cons x xs)
  show ?case
  proof (cases "truthy (popular x)")
    case True
    then have "sortInsert (compareItems lc ''popular'') x ys = x # ys" for ys
      by (intro sortInsert_first) (simp add: compareItems_def)
    with True Cons.IH show ?thesis by simp
  next
    case False
    then have "sortInsert (compareItems lc ''popular'') x
        (filter (\<lambda>i. truthy (popular i)) xs @ filter (\<lambda>i. \<not> truthy (popular i)) xs) =
        filter (\<lambda>i. truthy (popular i)) xs @ x # filter (\<lambda>i. \<not> truthy (popular i)) xs"
      by (intro sortInsert_after) (simp_all add: compareItems_def)
    with False Cons.IH show ?thesis by simp
  qed
qed

text \<open>
  Claim C6. Under \<open>popular\<close> the sorted list is the flagged items followed by the unflagged
  ones, each group in the order of the input; under \<open>price-low\<close> the prices never
  decrease, under \<open>price-high\<close> they never increase (prices 5, 12, 8 come out 12, 8, 5),
  and under \<open>rating\<close> the ratings never increase.
\<close>

theorem sortedItems_ordered:
  "sortedItems lc ''popular'' xs =
     filter (\<lambda>i. truthy (popular i)) xs @ filter (\<lambda>i. \<not> truthy (popular i)) xs
   \<and> sorted_wrt (\<lambda>a b. price a \<le> price b) (sortedItems lc ''price-low'' xs)
   \<and> sorted_wrt (\<lambda>a b. price b \<le> price a) (sortedItems lc ''price-high'' xs)
   \<and> sorted_wrt (\<lambda>a b. rating b \<le> rating a) (sortedItems lc ''rating'' xs)
   \<and> map price (sortedItems lc ''price-high''
          [a\<lparr>price := 5\<rparr>, b\<lparr>price := 12\<rparr>, c\<lparr>price := 8\<rparr>]) = [12, 8, 5]"
proof -
  have low: "sorted_wrt (\<lambda>a b. compareItems lc ''price-low'' a b \<le> 0)
      (arraySort (compareItems lc ''price-low'') xs)"
    by (rule sorted_arraySort) (auto simp: compareItems_def)
  have high: "sorted_wrt (\<lambda>a b. compareItems lc ''price-high'' a b \<le> 0)
      (arraySort (compareItems lc ''price-high'') xs)"
    by (rule sorted_arraySort) (auto simp: compareItems_def)
  have rate: "sorted_wrt (\<lambda>a b. compareItems lc ''rating'' a b \<le> 0)
      (arraySort (compareItems lc ''rating'') xs)"
    by (rule sorted_arraySort) (auto simp: compareItems_def)
  have "sorted_wrt (\<lambda>a b. price a \<le> price b) (sortedItems lc ''price-low'' xs)"
    using low by (simp add: sortedItems_def compareItems_def)
  moreover have "sorted_wrt (\<lambda>a b. price b \<le> price a) (sortedItems lc ''price-high'' xs)"
    using high by (simp add: sortedItems_def compareItems_def)
  moreover have "sorted_wrt (\<lambda>a b. rating b \<le> rating a) (sortedItems lc ''rating'' xs)"
    using rate by (simp add: sortedItems_def compareItems_def)
  moreover have "map price (sortedItems lc ''price-high''
          [a\<lparr>price := 5\<rparr>, b\<lparr>price := 12\<rparr>, c\<lparr>price := 8\<rparr>]) = [12, 8, 5]"
    by (simp add: sortedItems_def compareItems_def)
  ultimately show ?thesis
    by (simp add: sortedItems_def arraySort_popular)
qed

subsection \<open>The default branch of the sort\<close>

lemma codeUnitCompare_total: "codeUnitCompare s t \<le> 0 \<or> codeUnitCompare t s \<le> 0"
  by (induction s t rule: codeUnitCompare.induct) auto

lemma codeUnitCompare_trans:
  "codeUnitCompare s t \<le> 0 \<Longrightarrow> codeUnitCompare t u \<le> 0 \<Longrightarrow> codeUnitCompare s u \<le> 0"
proof (induction s t arbitrary: u rule: codeUnitCompare.induct)
  case 1
  then show ?case by simp
next
  case (2 b t)
  then show ?case by (cases u) simp_all
next
  case (3 a s)
  then show ?case by simp
next
  case (4 a s b t)
  show ?case
  proof (cases u)
    case Nil
    with "4.prems" show ?thesis by simp
  next
    case (Cons c v)
    show ?thesis
    proof (cases "(of_char a :: nat) < of_char b")
      case True
      with "4.prems" Cons have "(of_char a :: nat) < of_char c"
        by (auto split: if_splits)
      with Cons show ?thesis by simp
    next
      case ab: False
      with "4.prems" have ba: "\<not> (of_char b :: nat) < of_char a" and st: "codeUnitCompare s t \<le> 0"
        by (simp_all split: if_splits)
      show ?thesis
      proof (cases "(of_char b :: nat) < of_char c")
        case True
        with ab ba have "(of_char a :: nat) < of_char c"
          by simp
        with Cons show ?thesis by simp
      next
        case bc: False
        with "4.prems" Cons have cb: "\<not> (of_char c :: nat) < of_char b"
          and tv: "codeUnitCompare t v \<le> 0"
          by (simp_all split: if_splits)
        from ab ba st tv have "codeUnitCompare s v \<le> 0"
          by (rule "4.IH")
        with ab ba bc cb Cons show ?thesis
          by simp
      qed
    qed
  qed
qed

text \<open>
  Claim C10. A sort key other than \<open>price-low\<close>, \<open>price-high\<close>, \<open>rating\<close> and \<open>popular\<close>
  (the key \<open>name\<close> of the select box, or any other string) takes the default branch: the
  list is sorted with the comparator \<open>a.name.localeCompare(b.name)\<close>. The result is a
  permutation of the list, there is no error result, and for a \<open>localeCompare\<close> that is
  total and transitive the names come out in ascending order.
\<close>

theorem sortedItems_default_by_name:
  assumes "sortBy \<notin> {''price-low'', ''price-high'', ''rating'', ''popular''}"
  shows "sortedItems lc sortBy xs = arraySort (\<lambda>a b. lc (name a) (name b)) xs
     \<and> mset (sortedItems lc sortBy xs) = mset xs
     \<and> ((\<forall>s t. lc s t \<le> 0 \<or> lc t s \<le> 0) \<and>
         (\<forall>s t u. lc s t \<le> 0 \<and> lc t u \<le> 0 \<longrightarrow> lc s u \<le> 0) \<longrightarrow>
         sorted_wrt (\<lambda>a b. lc (name a) (name b) \<le> 0) (sortedItems lc sortBy xs))"
proof -
  have cmp: "compareItems lc sortBy = (\<lambda>a b. lc (name a) (name b))"
    using assms by (simp add: compareItems_def fun_eq_iff)
  have eq: "sortedItems lc sortBy xs = arraySort (\<lambda>a b. lc (name a) (name b)) xs"
    by (simp add: sortedItems_def cmp)
  have ordered: "(\<forall>s t. lc s t \<le> 0 \<or> lc t s \<le> 0) \<and>
      (\<forall>s t u. lc s t \<le> 0 \<and> lc t u \<le> 0 \<longrightarrow> lc s u \<le> 0) \<longrightarrow>
      sorted_wrt (\<lambda>a b. lc (name a) (name b) \<le> 0) (sortedItems lc sortBy xs)"
  proof
    assume consistent: "(\<forall>s t. lc s t \<le> 0 \<or> lc t s \<le> 0) \<and>
      (\<forall>s t u. lc s t \<le> 0 \<and> lc t u \<le> 0 \<longrightarrow> lc s u \<le> 0)"
    have "sorted_wrt (\<lambda>a b. lc (name a) (name b) \<le> 0)
        (arraySort (\<lambda>a b. lc (name a) (name b)) xs)"
    proof (rule sorted_arraySort)
      show "lc (name a) (name b) \<le> 0 \<or> lc (name b) (name a) \<le> 0" for a b :: MenuItem
        using consistent by blast
      show "lc (name a) (name c) \<le> 0"
        if "lc (name a) (name b) \<le> 0" and "lc (name b) (name c) \<le> 0" for a b c :: MenuItem
        using consistent that by blast
    qed
    then show "sorted_wrt (\<lambda>a b. lc (name a) (name b) \<le> 0) (sortedItems lc sortBy xs)"
      by (simp only: eq)
  qed
  have perm: "mset (sortedItems lc sortBy xs) = mset xs"
    by (simp add: sortedItems_def mset_arraySort)
  show ?thesis
    by (intro conjI eq perm ordered)
qed

theorem sortedItems_default_by_name_witness:
  "''name'' \<notin> {''price-low'', ''price-high'', ''rating'', ''popular''}
   \<and> sorted_wrt (\<lambda>a b. codeUnitCompare (name a) (name b) \<le> 0)
        (sortedItems codeUnitCompare ''name'' [sampleItem, sampleBurger, sampleSalad])
   \<and> map name (sortedItems codeUnitCompare ''name'' [sampleItem, sampleBurger, sampleSalad]) =
        [''Caesar Salad'', ''Cheese Burger'', ''Margherita Pizza'']"
proof -
  have key: "''name'' \<notin> {''price-low'', ''price-high'', ''rating'', ''popular''}"
    by simp
  have total: "\<forall>s t. codeUnitCompare s t \<le> 0 \<or> codeUnitCompare t s \<le> 0"
    by (simp add: codeUnitCompare_total)
  have trans: "\<forall>s t u. codeUnitCompare s t \<le> 0 \<and> codeUnitCompare t u \<le> 0 \<longrightarrow>
      codeUnitCompare s u \<le> 0"
    using codeUnitCompare_trans by blast
  have run: "map name (arraySort (\<lambda>a b. codeUnitCompare (name a) (name b))
      [sampleItem, sampleBurger, sampleSalad]) =
        [''Caesar Salad'', ''Cheese Burger'', ''Margherita Pizza'']"
    by code_simp
  have consistent: "(\<forall>s t. codeUnitCompare s t \<le> 0 \<or> codeUnitCompare t s \<le> 0) \<and>
      (\<forall>s t u. codeUnitCompare s t \<le> 0 \<and> codeUnitCompare t u \<le> 0 \<longrightarrow>
        codeUnitCompare s u \<le> 0)"
    using total trans by (rule conjI)
  note inst = sortedItems_default_by_name [OF key, of codeUnitCompare
      "[sampleItem, sampleBurger, sampleSalad]"]
  have ordered: "sorted_wrt (\<lambda>a b. codeUnitCompare (name a) (name b) \<le> 0)
        (sortedItems codeUnitCompare ''name'' [sampleItem, sampleBurger, sampleSalad])"
    using inst [THEN conjunct2, THEN conjunct2] consistent by (rule mp)
  have "map name (sortedItems codeUnitCompare ''name'' [sampleItem, sampleBurger, sampleSalad]) =
        [''Caesar Salad'', ''Cheese Burger'', ''Margherita Pizza'']"
    by (simp only: inst [THEN conjunct1] run)
  with key ordered show ?thesis
    by (intro conjI)
qed

end
